theory Spec2Isabelle
  imports Complex_Main
begin

section \<open>Errors and computations\<close>

text \<open>
  The exceptions a forward pass or a constructor can raise.  A module call may
  read and advance the process-wide random generator (dropout), so a forward
  pass is a function from the generator state to an error or a result paired
  with the new generator state.
\<close>

datatype error = IndexError | TypeError | RuntimeError | ZeroDivisionError | ValueError
  | ConfigError

type_synonym ('r, 'x) comp = "'r \<Rightarrow> error + 'x \<times> 'r"

definition ret :: "'x \<Rightarrow> ('r, 'x) comp" where
  "ret x r = Inr (x, r)"

definition bnd :: "('r, 'x) comp \<Rightarrow> ('x \<Rightarrow> ('r, 'y) comp) \<Rightarrow> ('r, 'y) comp" where
  "bnd m f r = (case m r of Inl e \<Rightarrow> Inl e | Inr (x, r') \<Rightarrow> f x r')"

definition lift :: "error + 'x \<Rightarrow> ('r, 'x) comp" where
  "lift v r = (case v of Inl e \<Rightarrow> Inl e | Inr x \<Rightarrow> Inr (x, r))"

definition outcome :: "error + 'x \<times> 'r \<Rightarrow> error + 'x" where
  "outcome v = (case v of Inl e \<Rightarrow> Inl e | Inr (x, r) \<Rightarrow> Inr x)"

section \<open>Tensors\<close>

text \<open>
  A tensor is its size and its elements in row-major order.  Only the
  operations the module uses are modelled: iteration and slicing along the
  first dimension, \<open>torch.stack\<close> along dimension 0, \<open>view\<close>, and addition.
  Elements are real numbers: the rounding of floating-point arithmetic is not
  modelled.  Neither is the memory layout: a tensor here has no strides, it
  stands for every tensor of that size holding those values.  The library's
  \<open>view\<close> also refuses a tensor whose strides do not allow the new size (a
  transposed input, say); that refusal is outside the model.  Every run of the
  code that returns is a run of the model that returns the same values, so what
  is proved of all returning runs of the model holds of the code; that the code
  returns is not concluded from the model where a \<open>view\<close> is involved.
\<close>

record tensor =
  shape :: "nat list"
  elems :: "real list"

definition wf_tensor :: "tensor \<Rightarrow> bool" where
  "wf_tensor t \<longleftrightarrow> length (elems t) = prod_list (shape t)"

text \<open>\<open>t.shape[0]\<close>: a 0-d tensor has no first dimension.\<close>

definition size0 :: "tensor \<Rightarrow> error + nat" where
  "size0 t = (case shape t of [] \<Rightarrow> Inl IndexError | n # s \<Rightarrow> Inr n)"

text \<open>Iterating a tensor yields its sub-tensors along dimension 0.\<close>

definition unbind :: "tensor \<Rightarrow> error + tensor list" where
  "unbind t = (case shape t of [] \<Rightarrow> Inl TypeError
     | n # s \<Rightarrow> Inr (map (\<lambda>i. \<lparr>shape = s,
           elems = take (prod_list s) (drop (i * prod_list s) (elems t))\<rparr>) [0..<n]))"

text \<open>\<open>t[:k]\<close> for \<open>k \<ge> 0\<close>: the first \<open>k\<close> positions, or all of them when there are fewer.\<close>

definition slice_to :: "nat \<Rightarrow> tensor \<Rightarrow> error + tensor" where
  "slice_to k t = (case shape t of [] \<Rightarrow> Inl IndexError
     | n # s \<Rightarrow> Inr \<lparr>shape = min k n # s,
           elems = take (min k n * prod_list s) (elems t)\<rparr>)"

text \<open>\<open>torch.stack(ts, dim=0)\<close>: refuses an empty list and tensors of unequal sizes.\<close>

definition stack :: "tensor list \<Rightarrow> error + tensor" where
  "stack ts = (case ts of [] \<Rightarrow> Inl RuntimeError
     | t # rest \<Rightarrow> if \<forall>u \<in> set rest. shape u = shape t
         then Inr \<lparr>shape = length ts # shape t, elems = concat (map elems ts)\<rparr>
         else Inl RuntimeError)"

text \<open>
  \<open>t.view(-1, d)\<close>: the number of rows is inferred from the element count.  Of
  the library's checks the ones on the sizes are modelled, the one on the
  strides is not.
\<close>

definition view_rows :: "int \<Rightarrow> tensor \<Rightarrow> error + tensor" where
  "view_rows d t =
     (if d \<le> 0 then Inl RuntimeError
      else if prod_list (shape t) mod nat d \<noteq> 0 then Inl RuntimeError
      else Inr \<lparr>shape = [prod_list (shape t) div nat d, nat d], elems = elems t\<rparr>)"

text \<open>\<open>t.view(s)\<close> for a size \<open>s\<close>: the element counts must agree.\<close>

definition view :: "nat list \<Rightarrow> tensor \<Rightarrow> error + tensor" where
  "view s t = (if prod_list s = prod_list (shape t) then Inr \<lparr>shape = s, elems = elems t\<rparr>
     else Inl RuntimeError)"

text \<open>
  Addition broadcasts: sizes are aligned at the last dimension, and a dimension
  of size 1 is repeated to the size of the other operand.
\<close>

fun broadcast_shapes :: "nat list \<Rightarrow> nat list \<Rightarrow> nat list option" where
  "broadcast_shapes [] ys = Some ys"
| "broadcast_shapes xs [] = Some xs"
| "broadcast_shapes (x # xs) (y # ys) =
     (if x = y \<or> y = 1 then map_option ((#) x) (broadcast_shapes xs ys)
      else if x = 1 then map_option ((#) y) (broadcast_shapes xs ys)
      else None)"

fun expand :: "nat list \<Rightarrow> nat list \<Rightarrow> real list \<Rightarrow> real list" where
  "expand (n # ns) (m # ms) d =
     (if m = n
      then concat (map (\<lambda>i. expand ns ms (take (prod_list ms) (drop (i * prod_list ms) d))) [0..<n])
      else concat (replicate n (expand ns ms d)))"
| "expand ns ms d = d"

definition expand_to :: "nat list \<Rightarrow> tensor \<Rightarrow> real list" where
  "expand_to s t = expand s (replicate (length s - length (shape t)) 1 @ shape t) (elems t)"

definition tensor_add :: "tensor \<Rightarrow> tensor \<Rightarrow> error + tensor" where
  "tensor_add a b =
     (if shape a = shape b
      then Inr \<lparr>shape = shape a, elems = map2 (+) (elems a) (elems b)\<rparr>
      else case broadcast_shapes (rev (shape a)) (rev (shape b)) of
        None \<Rightarrow> Inl RuntimeError
      | Some s \<Rightarrow> Inr \<lparr>shape = rev s,
          elems = map2 (+) (expand_to (rev s) a) (expand_to (rev s) b)\<rparr>)"

section \<open>AttentionLayer\<close>

text \<open>
  The multi-head attention kernel (\<open>MultiHeadAttention\<close>) and the layer
  normalisation (\<open>LayerNorm\<close>) are collaborators of this module.  A kernel
  instance is the function its call computes from a query of size [bs, dim] and
  keys and values of size [sl, bs, dim]; a normalisation instance likewise.
\<close>

type_synonym 'r kernel = "tensor \<Rightarrow> tensor \<Rightarrow> tensor \<Rightarrow> ('r, tensor) comp"
type_synonym 'r norm = "tensor \<Rightarrow> ('r, tensor) comp"

record 'r AttentionLayer =
  a_dim :: int
  a_nhid :: int
  a_attention :: "'r kernel"

text \<open>
  The loop of \<open>AttentionLayer.forward\<close>: \<open>index\<close> counts the steps from 1,
  \<open>outs\<close> is \<open>self_attention_outputs\<close>, \<open>masked\<close> is the argument \<open>mask\<close>.
\<close>

fun attention_loop :: "'r AttentionLayer \<Rightarrow> bool \<Rightarrow> tensor \<Rightarrow> tensor \<Rightarrow> tensor \<Rightarrow>
    nat \<Rightarrow> tensor list \<Rightarrow> tensor list \<Rightarrow> ('r, tensor list) comp" where
  "attention_loop self masked input_tensor keys_vector values_vector index [] outs = ret outs"
| "attention_loop self masked input_tensor keys_vector values_vector index (input_step # rest) outs =
     bnd (if masked then ret index else lift (size0 input_tensor)) (\<lambda>mask_index.
     bnd (lift (slice_to mask_index keys_vector)) (\<lambda>keys.
     bnd (lift (slice_to mask_index values_vector)) (\<lambda>vals.
     bnd (a_attention self input_step keys vals) (\<lambda>out.
     attention_loop self masked input_tensor keys_vector values_vector (Suc index) rest
       (outs @ [out])))))"

definition self_attention_outputs :: "'r AttentionLayer \<Rightarrow> tensor \<Rightarrow> tensor \<Rightarrow> tensor \<Rightarrow> bool \<Rightarrow>
    ('r, tensor list) comp" where
  "self_attention_outputs self input_tensor keys_vector values_vector masked =
     bnd (lift (unbind input_tensor)) (\<lambda>steps.
       attention_loop self masked input_tensor keys_vector values_vector 1 steps [])"

definition AttentionLayer_forward :: "'r AttentionLayer \<Rightarrow> tensor \<Rightarrow> tensor \<Rightarrow> tensor \<Rightarrow> bool \<Rightarrow>
    ('r, tensor) comp" where
  "AttentionLayer_forward self input_tensor keys_vector values_vector masked =
     bnd (self_attention_outputs self input_tensor keys_vector values_vector masked) (\<lambda>outs.
       lift (stack outs))"

section \<open>SubLayer\<close>

text \<open>
  The constructor stores \<open>in_features\<close> followed by a comma, a one-element
  tuple, and hands that tuple to \<open>LayerNorm\<close>.
\<close>

record 'r SubLayer =
  s_in_features :: "int list"
  layer_norm :: "'r norm"

definition SubLayer_forward :: "'r SubLayer \<Rightarrow> tensor \<Rightarrow> (tensor \<Rightarrow> ('r, tensor) comp) \<Rightarrow>
    ('r, tensor) comp" where
  "SubLayer_forward self input_tensor sublayer =
     bnd (layer_norm self input_tensor) (\<lambda>normed.
     bnd (sublayer normed) (\<lambda>y.
     lift (tensor_add input_tensor y)))"

section \<open>PositionFeedForward\<close>

text \<open>
  The library modules the feed-forward block is built from.  \<open>Linear\<close> maps the
  last dimension through its weight matrix (one row per output feature) and
  adds the bias; \<open>Dropout\<close> is the identity unless the module is in training
  mode with a positive rate, and then keeps each element with probability
  \<open>1 - p\<close>, scaled by \<open>1 / (1 - p)\<close>.
\<close>

record Linear =
  l_in_features :: int
  l_out_features :: int
  weight :: "real list list"
  bias :: "real list"

record Dropout =
  p :: real
  training :: bool

record feed_forward =
  ff_linear1 :: Linear
  ff_linear2 :: Linear
  ff_dropout :: Dropout

record PositionFeedForward =
  in_features :: int
  out_features :: int
  f_nhid :: int
  ff :: feed_forward

text \<open>
  What the surroundings supply: the constructors of the two collaborators, the
  initial weights of a \<open>Linear\<close> of a given size (rows, columns), and the
  random generator's Bernoulli samples (probability, count).
\<close>

record 'r env =
  MultiHeadAttention_init :: "int \<Rightarrow> int \<Rightarrow> int \<Rightarrow> int \<Rightarrow> int \<Rightarrow> real \<Rightarrow> ('r, 'r kernel) comp"
  LayerNorm_init :: "int list \<Rightarrow> ('r, 'r norm) comp"
  Linear_weights :: "nat \<Rightarrow> nat \<Rightarrow> ('r, real list list \<times> real list) comp"
  bernoulli :: "real \<Rightarrow> nat \<Rightarrow> 'r \<Rightarrow> bool list \<times> 'r"

definition Linear_row :: "Linear \<Rightarrow> real list \<Rightarrow> real list" where
  "Linear_row l x = map2 (\<lambda>w b. sum_list (map2 (*) w x) + b) (weight l) (bias l)"

definition Linear_forward :: "Linear \<Rightarrow> tensor \<Rightarrow> error + tensor" where
  "Linear_forward l t =
     (if shape t = [] \<or> int (last (shape t)) \<noteq> l_in_features l then Inl RuntimeError
      else Inr \<lparr>shape = butlast (shape t) @ [nat (l_out_features l)],
        elems = concat (map (\<lambda>i.
            Linear_row l (take (last (shape t)) (drop (i * last (shape t)) (elems t))))
          [0..<prod_list (butlast (shape t))])\<rparr>)"

definition ReLU_forward :: "tensor \<Rightarrow> tensor" where
  "ReLU_forward t = t\<lparr>elems := map (max 0) (elems t)\<rparr>"

definition Dropout_forward :: "'r env \<Rightarrow> Dropout \<Rightarrow> tensor \<Rightarrow> ('r, tensor) comp" where
  "Dropout_forward e d t r =
     (if p d = 0 \<or> \<not> training d \<or> elems t = [] then Inr (t, r)
      else if p d = 1 then Inr (t\<lparr>elems := map (\<lambda>x. 0) (elems t)\<rparr>, r)
      else case bernoulli e (1 - p d) (length (elems t)) r of
        (keep, r') \<Rightarrow>
          Inr (t\<lparr>elems := map2 (\<lambda>k x. if k then x / (1 - p d) else 0) keep (elems t)\<rparr>, r'))"

definition PositionFeedForward_forward :: "'r env \<Rightarrow> PositionFeedForward \<Rightarrow> tensor \<Rightarrow>
    ('r, tensor) comp" where
  "PositionFeedForward_forward e self inputs =
     bnd (lift (Linear_forward (ff_linear1 (ff self)) inputs)) (\<lambda>h.
     bnd (lift (Linear_forward (ff_linear2 (ff self)) (ReLU_forward h))) (\<lambda>y.
     Dropout_forward e (ff_dropout (ff self)) y))"

section \<open>TransformerLayer and TransformerLayerDecoder\<close>

record 'r TransformerLayer =
  dim :: int
  nhid :: int
  attention :: "'r AttentionLayer"
  linear :: PositionFeedForward
  sublayers :: "'r SubLayer list"

record 'r TransformerLayerDecoder = "'r TransformerLayer" +
  decoder_attention :: "'r AttentionLayer"

text \<open>\<open>self.sublayers[i]\<close> for \<open>i \<ge> 0\<close>.\<close>

definition module_at :: "'a list \<Rightarrow> nat \<Rightarrow> error + 'a" where
  "module_at ms i = (if i < length ms then Inr (ms ! i) else Inl IndexError)"

definition TransformerLayer_forward :: "'r env \<Rightarrow> 'r TransformerLayer \<Rightarrow> tensor \<Rightarrow>
    ('r, tensor) comp" where
  "TransformerLayer_forward e self input_tensor =
     bnd (lift (module_at (sublayers self) 0)) (\<lambda>sub0.
     bnd (SubLayer_forward sub0 input_tensor
            (\<lambda>x. AttentionLayer_forward (attention self) x x x False)) (\<lambda>attention_output.
     bnd (lift (module_at (sublayers self) 1)) (\<lambda>sub1.
     bnd (lift (view_rows (dim self) attention_output)) (\<lambda>flat.
     bnd (SubLayer_forward sub1 flat (PositionFeedForward_forward e (linear self))) (\<lambda>y.
     lift (view (shape input_tensor) y))))))"

definition TransformerLayerDecoder_forward :: "'r env \<Rightarrow> 'r TransformerLayerDecoder \<Rightarrow>
    tensor \<Rightarrow> tensor \<Rightarrow> ('r, tensor) comp" where
  "TransformerLayerDecoder_forward e self encoder_input decoder_input =
     bnd (lift (module_at (sublayers self) 0)) (\<lambda>sub0.
     bnd (SubLayer_forward sub0 decoder_input
            (\<lambda>x. AttentionLayer_forward (attention self) x x x True)) (\<lambda>att_output.
     bnd (lift (module_at (sublayers self) 1)) (\<lambda>sub1.
     bnd (SubLayer_forward sub1 att_output
            (\<lambda>x. AttentionLayer_forward (attention self) x encoder_input encoder_input False))
         (\<lambda>dec_att_output.
     bnd (lift (module_at (sublayers self) 2)) (\<lambda>sub2.
     bnd (lift (view_rows (dim self) dec_att_output)) (\<lambda>flat.
     bnd (SubLayer_forward sub2 flat (PositionFeedForward_forward e (linear self))) (\<lambda>y.
     lift (view (shape decoder_input) y))))))))"

section \<open>TransformerEncoder and TransformerDecoder\<close>

record 'r TransformerEncoder =
  enc_layers :: "'r TransformerLayer list"

record 'r TransformerDecoder =
  dec_layers :: "'r TransformerLayerDecoder list"

fun encoder_loop :: "'r env \<Rightarrow> 'r TransformerLayer list \<Rightarrow> tensor \<Rightarrow> tensor list \<Rightarrow>
    ('r, tensor \<times> tensor list) comp" where
  "encoder_loop e [] inputs output_tensors = ret (inputs, output_tensors)"
| "encoder_loop e (layer # rest) inputs output_tensors =
     bnd (TransformerLayer_forward e layer inputs) (\<lambda>inputs'.
       encoder_loop e rest inputs' (output_tensors @ [inputs']))"

definition TransformerEncoder_forward :: "'r env \<Rightarrow> 'r TransformerEncoder \<Rightarrow> tensor \<Rightarrow>
    ('r, tensor \<times> tensor list) comp" where
  "TransformerEncoder_forward e self input_tensors =
     encoder_loop e (enc_layers self) input_tensors []"

fun decoder_loop :: "'r env \<Rightarrow> (tensor \<times> 'r TransformerLayerDecoder) list \<Rightarrow> tensor \<Rightarrow>
    tensor list \<Rightarrow> ('r, tensor \<times> tensor list) comp" where
  "decoder_loop e [] dec_inputs output_tensors = ret (dec_inputs, output_tensors)"
| "decoder_loop e ((enc_inputs, layer) # rest) dec_inputs output_tensors =
     bnd (TransformerLayerDecoder_forward e layer enc_inputs dec_inputs) (\<lambda>dec_inputs'.
       decoder_loop e rest dec_inputs' (output_tensors @ [dec_inputs']))"

definition TransformerDecoder_forward :: "'r env \<Rightarrow> 'r TransformerDecoder \<Rightarrow> tensor list \<Rightarrow>
    tensor \<Rightarrow> ('r, tensor \<times> tensor list) comp" where
  "TransformerDecoder_forward e self encoder_inputs decoder_inputs =
     decoder_loop e (zip encoder_inputs (dec_layers self)) decoder_inputs []"

section \<open>Constructors\<close>

text \<open>
  A constructor runs in the same way as a forward pass: it may fail, and the
  initial weights it draws advance the generator.  \<open>in_features // num_heads\<close>
  is floor division on integers, which raises on a zero divisor.
\<close>

definition floordiv :: "int \<Rightarrow> int \<Rightarrow> error + int" where
  "floordiv a b = (if b = 0 then Inl ZeroDivisionError else Inr (a div b))"

definition AttentionLayer_init :: "'r env \<Rightarrow> int \<Rightarrow> int \<Rightarrow> real \<Rightarrow> ('r, 'r AttentionLayer) comp" where
  "AttentionLayer_init e in_features' num_heads p' =
     bnd (lift (floordiv in_features' num_heads)) (\<lambda>nhid'.
     bnd (MultiHeadAttention_init e num_heads nhid' in_features' in_features' in_features' p')
       (\<lambda>att.
     ret \<lparr>a_dim = in_features', a_nhid = nhid', a_attention = att\<rparr>))"

definition SubLayer_init :: "'r env \<Rightarrow> int \<Rightarrow> ('r, 'r SubLayer) comp" where
  "SubLayer_init e in_features' =
     bnd (LayerNorm_init e [in_features']) (\<lambda>ln.
     ret \<lparr>s_in_features = [in_features'], layer_norm = ln\<rparr>)"

definition Linear_init :: "'r env \<Rightarrow> int \<Rightarrow> int \<Rightarrow> ('r, Linear) comp" where
  "Linear_init e in_features' out_features' =
     (if in_features' < 0 \<or> out_features' < 0 then lift (Inl RuntimeError)
      else bnd (Linear_weights e (nat out_features') (nat in_features')) (\<lambda>(w, b).
        ret \<lparr>l_in_features = in_features', l_out_features = out_features',
             weight = w, bias = b\<rparr>))"

definition Dropout_init :: "real \<Rightarrow> error + Dropout" where
  "Dropout_init p' = (if p' < 0 \<or> 1 < p' then Inl ValueError
     else Inr \<lparr>p = p', training = True\<rparr>)"

definition PositionFeedForward_init :: "'r env \<Rightarrow> int \<Rightarrow> int \<Rightarrow> int \<Rightarrow> real \<Rightarrow>
    ('r, PositionFeedForward) comp" where
  "PositionFeedForward_init e in_features' out_features' nhid' p' =
     bnd (Linear_init e in_features' nhid') (\<lambda>l1.
     bnd (Linear_init e nhid' out_features') (\<lambda>l2.
     bnd (lift (Dropout_init p')) (\<lambda>d.
     ret \<lparr>in_features = in_features', out_features = out_features', f_nhid = nhid',
          ff = \<lparr>ff_linear1 = l1, ff_linear2 = l2, ff_dropout = d\<rparr>\<rparr>)))"

definition TransformerLayer_init :: "'r env \<Rightarrow> int \<Rightarrow> int \<Rightarrow> int \<Rightarrow> real \<Rightarrow>
    ('r, 'r TransformerLayer) comp" where
  "TransformerLayer_init e in_features' num_heads ffnhid p' =
     bnd (lift (floordiv in_features' num_heads)) (\<lambda>nhid'.
     bnd (AttentionLayer_init e in_features' num_heads p') (\<lambda>att.
     bnd (PositionFeedForward_init e in_features' in_features' ffnhid p') (\<lambda>lin.
     bnd (SubLayer_init e in_features') (\<lambda>sub0.
     bnd (SubLayer_init e in_features') (\<lambda>sub1.
     ret \<lparr>dim = in_features', nhid = nhid', attention = att, linear = lin,
          sublayers = [sub0, sub1]\<rparr>)))))"

definition TransformerLayerDecoder_init :: "'r env \<Rightarrow> int \<Rightarrow> int \<Rightarrow> int \<Rightarrow> real \<Rightarrow>
    ('r, 'r TransformerLayerDecoder) comp" where
  "TransformerLayerDecoder_init e in_features' num_heads ffnhid p' =
     bnd (TransformerLayer_init e in_features' num_heads ffnhid p') (\<lambda>base.
     bnd (AttentionLayer_init e in_features' num_heads p') (\<lambda>dec_att.
     bnd (SubLayer_init e in_features') (\<lambda>sub2.
     ret \<lparr>dim = dim base, nhid = nhid base, attention = attention base, linear = linear base,
          sublayers = sublayers base @ [sub2], decoder_attention = dec_att\<rparr>)))"

text \<open>
  Modelled from the spec: \<open>get_list\<close> of \<open>quicknlp.utils\<close> is not part of the
  sources at hand.  A per-layer hyperparameter supplied as a single scalar is
  broadcast to all layers; supplied as a list, its length must equal the number
  of layers, and a mismatch is a configuration error.
\<close>

datatype 'a hyper = Scalar 'a | Listy "'a list"

definition get_list :: "'a hyper \<Rightarrow> int \<Rightarrow> error + 'a list" where
  "get_list v num_layers = (case v of
       Scalar x \<Rightarrow> Inr (replicate (nat num_layers) x)
     | Listy xs \<Rightarrow> if int (length xs) = num_layers then Inr xs else Inl ConfigError)"

text \<open>The list comprehension \<open>[f(i) for i in range(num_layers)]\<close>, built in order.\<close>

fun comprehension :: "(nat \<Rightarrow> ('r, 'x) comp) \<Rightarrow> nat list \<Rightarrow> ('r, 'x list) comp" where
  "comprehension f [] = ret []"
| "comprehension f (i # is) =
     bnd (f i) (\<lambda>x. bnd (comprehension f is) (\<lambda>xs. ret (x # xs)))"

definition TransformerEncoder_init :: "'r env \<Rightarrow> int \<Rightarrow> int \<Rightarrow> int hyper \<Rightarrow> int hyper \<Rightarrow> real \<Rightarrow>
    ('r, 'r TransformerEncoder) comp" where
  "TransformerEncoder_init e num_layers in_features' num_heads ffnhid dropout =
     bnd (lift (get_list ffnhid num_layers)) (\<lambda>ffnhid'.
     bnd (lift (get_list num_heads num_layers)) (\<lambda>num_heads'.
     bnd (comprehension (\<lambda>i.
            bnd (lift (module_at ffnhid' i)) (\<lambda>w.
            bnd (lift (module_at num_heads' i)) (\<lambda>h.
            TransformerLayer_init e in_features' h w dropout)))
          [0..<nat num_layers]) (\<lambda>ls.
     ret \<lparr>enc_layers = ls\<rparr>)))"

definition TransformerDecoder_init :: "'r env \<Rightarrow> int \<Rightarrow> int \<Rightarrow> int hyper \<Rightarrow> int hyper \<Rightarrow> real \<Rightarrow>
    ('r, 'r TransformerDecoder) comp" where
  "TransformerDecoder_init e num_layers in_features' num_heads ffnhid dropout =
     bnd (lift (get_list ffnhid num_layers)) (\<lambda>ffnhid'.
     bnd (lift (get_list num_heads num_layers)) (\<lambda>num_heads'.
     bnd (comprehension (\<lambda>i.
            bnd (lift (module_at ffnhid' i)) (\<lambda>w.
            bnd (lift (module_at num_heads' i)) (\<lambda>h.
            TransformerLayerDecoder_init e in_features' h w dropout)))
          [0..<nat num_layers]) (\<lambda>ls.
     ret \<lparr>dec_layers = ls\<rparr>)))"

section \<open>Specifications\<close>

text \<open>
  The stacks as the specification words them.  The encoder applies its layers
  in order, each layer's output feeding the next layer's input, and collects
  the per-layer outputs.
\<close>

fun layers_in_sequence :: "'r env \<Rightarrow> 'r TransformerLayer list \<Rightarrow> tensor \<Rightarrow>
    ('r, tensor list) comp" where
  "layers_in_sequence e [] x = ret []"
| "layers_in_sequence e (layer # rest) x =
     bnd (TransformerLayer_forward e layer x) (\<lambda>y.
     bnd (layers_in_sequence e rest y) (\<lambda>ys. ret (y # ys)))"

text \<open>
  The decoder applies layer \<open>i\<close> to element \<open>i\<close> of the encoder outputs and the
  running decoder state, and stops at the shorter of the two lists.
\<close>

fun layers_pairwise :: "'r env \<Rightarrow> 'r TransformerLayerDecoder list \<Rightarrow> tensor list \<Rightarrow> tensor \<Rightarrow>
    ('r, tensor list) comp" where
  "layers_pairwise e [] encs x = ret []"
| "layers_pairwise e (layer # rest) [] x = ret []"
| "layers_pairwise e (layer # rest) (enc # encs) x =
     bnd (TransformerLayerDecoder_forward e layer enc x) (\<lambda>y.
     bnd (layers_pairwise e rest encs y) (\<lambda>ys. ret (y # ys)))"

text \<open>An explicit per-layer list for a hyperparameter given as a scalar.\<close>

fun explicit_list :: "int \<Rightarrow> 'a hyper \<Rightarrow> 'a hyper" where
  "explicit_list num_layers (Scalar x) = Listy (replicate (nat num_layers) x)"
| "explicit_list num_layers (Listy xs) = Listy xs"

text \<open>
  A computation is free of the generator when its error or value is the same
  from every generator state.  Dropout is disabled in a layer when the rate of
  its feed-forward dropout is 0 or the module is in inference mode, and its
  collaborators (whose own dropout follows the same switch) are free of the
  generator.
\<close>

definition rng_free :: "('r, 'x) comp \<Rightarrow> bool" where
  "rng_free m \<longleftrightarrow> (\<forall>r r'. outcome (m r) = outcome (m r'))"

definition dropout_disabled :: "('r, 'm) TransformerLayer_scheme \<Rightarrow> bool" where
  "dropout_disabled self \<longleftrightarrow>
     (p (ff_dropout (ff (linear self))) = 0 \<or> \<not> training (ff_dropout (ff (linear self))))
     \<and> (\<forall>q k v. rng_free (a_attention (attention self) q k v))
     \<and> (\<forall>s \<in> set (sublayers self). \<forall>t. rng_free (layer_norm s t))"

section \<open>A small instance\<close>

text \<open>
  Concrete collaborators and inputs on which the theorems below are exercised.
  The probe kernel fills a tensor of the query's size with the sum of all key
  and value elements it is given; the recording kernel returns the query and
  appends its three arguments to a log kept in the generator state.  The small
  environment builds probe kernels and identity normalisations, initialises
  weights to 1 and biases to 0, and its generator is a counter whose samples
  are the parities of the successive counts.
\<close>

definition probe_kernel :: "'r kernel" where
  "probe_kernel q k v = ret \<lparr>shape = shape q,
     elems = replicate (prod_list (shape q)) (sum_list (elems k) + sum_list (elems v))\<rparr>"

definition recording_kernel :: "((tensor \<times> tensor \<times> tensor) list) kernel" where
  "recording_kernel q k v calls = Inr (q, calls @ [(q, k, v)])"

definition tiny_env :: "nat env" where
  "tiny_env = \<lparr>MultiHeadAttention_init = (\<lambda>h n kd vd qd p'. ret probe_kernel),
     LayerNorm_init = (\<lambda>fs. ret ret),
     Linear_weights = (\<lambda>rows cols. ret (replicate rows (replicate cols 1), replicate rows 0)),
     bernoulli = (\<lambda>q n r. (map (\<lambda>i. even (r + i)) [0..<n], r + n))\<rparr>"

definition probe_attention :: "nat AttentionLayer" where
  "probe_attention = \<lparr>a_dim = 1, a_nhid = 1, a_attention = probe_kernel\<rparr>"

definition recording_attention :: "((tensor \<times> tensor \<times> tensor) list) AttentionLayer" where
  "recording_attention = \<lparr>a_dim = 1, a_nhid = 1, a_attention = recording_kernel\<rparr>"

definition tiny_linear :: Linear where
  "tiny_linear = \<lparr>l_in_features = 1, l_out_features = 1, weight = [[1]], bias = [0]\<rparr>"

definition tiny_ff :: "real \<Rightarrow> bool \<Rightarrow> PositionFeedForward" where
  "tiny_ff rate mode = \<lparr>in_features = 1, out_features = 1, f_nhid = 1,
     ff = \<lparr>ff_linear1 = tiny_linear, ff_linear2 = tiny_linear,
            ff_dropout = \<lparr>p = rate, training = mode\<rparr>\<rparr>\<rparr>"

definition tiny_sublayer :: "nat SubLayer" where
  "tiny_sublayer = \<lparr>s_in_features = [1], layer_norm = ret\<rparr>"

definition tiny_layer :: "real \<Rightarrow> bool \<Rightarrow> nat TransformerLayer" where
  "tiny_layer rate mode = \<lparr>dim = 1, nhid = 1, attention = probe_attention,
     linear = tiny_ff rate mode, sublayers = [tiny_sublayer, tiny_sublayer]\<rparr>"

definition tiny_decoder_layer :: "real \<Rightarrow> bool \<Rightarrow> nat TransformerLayerDecoder" where
  "tiny_decoder_layer rate mode = \<lparr>dim = 1, nhid = 1, attention = probe_attention,
     linear = tiny_ff rate mode, sublayers = [tiny_sublayer, tiny_sublayer, tiny_sublayer],
     decoder_attention = probe_attention\<rparr>"

definition small_layer :: "nat TransformerLayer" where
  "small_layer = \<lparr>dim = 2, nhid = 1,
     attention = \<lparr>a_dim = 2, a_nhid = 1, a_attention = probe_kernel\<rparr>,
     linear = \<lparr>in_features = 2, out_features = 2, f_nhid = 3,
       ff = \<lparr>ff_linear1 = \<lparr>l_in_features = 2, l_out_features = 3,
                 weight = [[1, 1], [1, 1], [1, 1]], bias = [0, 0, 0]\<rparr>,
              ff_linear2 = \<lparr>l_in_features = 3, l_out_features = 2,
                 weight = [[1, 1, 1], [1, 1, 1]], bias = [0, 0]\<rparr>,
              ff_dropout = \<lparr>p = 0, training = True\<rparr>\<rparr>\<rparr>,
     sublayers = [\<lparr>s_in_features = [2], layer_norm = ret\<rparr>,
                  \<lparr>s_in_features = [2], layer_norm = ret\<rparr>]\<rparr>"

definition x322 :: tensor where
  "x322 = \<lparr>shape = [3, 2, 2], elems = [1, 2, 3, 4, 5, 6, 7, 8, 9, 10, 11, 12]\<rparr>"

definition q1 :: tensor where "q1 = \<lparr>shape = [1, 1, 1], elems = [1]\<rparr>"
definition q2 :: tensor where "q2 = \<lparr>shape = [2, 1, 1], elems = [1, 2]\<rparr>"
definition k2 :: tensor where "k2 = \<lparr>shape = [2, 1, 1], elems = [3, 4]\<rparr>"
definition k2' :: tensor where "k2' = \<lparr>shape = [2, 1, 1], elems = [3, 5]\<rparr>"

section \<open>Computations\<close>

lemma bnd_Inr: "m r = Inr (x, r') \<Longrightarrow> bnd m f r = f x r'"
  by (simp add: bnd_def)

lemma bnd_Inl: "m r = Inl err \<Longrightarrow> bnd m f r = Inl err"
  by (simp add: bnd_def)

lemma bnd_eq_Inr:
  "bnd m f r = Inr (y, r2) \<longleftrightarrow> (\<exists>x r1. m r = Inr (x, r1) \<and> f x r1 = Inr (y, r2))"
  by (auto simp: bnd_def split: sum.splits)

lemma lift_eq_Inr: "lift v r = Inr (x, r') \<longleftrightarrow> v = Inr x \<and> r' = r"
  by (auto simp: lift_def split: sum.splits)

lemma ret_eq_Inr: "ret x r = Inr (y, r') \<longleftrightarrow> y = x \<and> r' = r"
  by (auto simp: ret_def)

lemma bnd_ret_left: "bnd (ret x) f = f x"
  by (rule ext) (simp add: bnd_def ret_def)

lemma bnd_assoc: "bnd (bnd m f) g = bnd m (\<lambda>x. bnd (f x) g)"
  by (rule ext) (simp add: bnd_def split: sum.splits)

section \<open>The attention loop\<close>

text \<open>The accumulator of the loop only collects: the loop can be read without it.\<close>

lemma attention_loop_acc:
  "attention_loop self m q ks vs idx steps (acc @ acc')
     = bnd (attention_loop self m q ks vs idx steps acc') (\<lambda>ys. ret (acc @ ys))"
proof (induction steps arbitrary: idx acc acc')
  case Nil
  show ?case by (simp add: bnd_ret_left)
next
  case (Cons s rest)
  have "attention_loop self m q ks vs (Suc idx) rest (acc @ acc' @ [out])
     = bnd (attention_loop self m q ks vs (Suc idx) rest (acc' @ [out])) (\<lambda>ys. ret (acc @ ys))"
    for out
    using Cons.IH[of "Suc idx" acc "acc' @ [out]"] by simp
  then show ?case by (simp add: bnd_assoc)
qed

lemma attention_loop_Cons:
  "attention_loop self m q ks vs idx (s # rest) []
     = bnd (if m then ret idx else lift (size0 q)) (\<lambda>mask_index.
       bnd (lift (slice_to mask_index ks)) (\<lambda>keys.
       bnd (lift (slice_to mask_index vs)) (\<lambda>vals.
       bnd (a_attention self s keys vals) (\<lambda>out.
       bnd (attention_loop self m q ks vs (Suc idx) rest []) (\<lambda>ys. ret (out # ys))))))"
  using attention_loop_acc[of self m q ks vs "Suc idx" rest "[_]" "[]"]
  by simp

lemma attention_loop_length:
  "attention_loop self m q ks vs idx steps [] r = Inr (outs, r') \<Longrightarrow> length outs = length steps"
proof (induction steps arbitrary: idx r outs)
  case Nil
  then show ?case by (simp add: ret_def)
next
  case (Cons s rest)
  then show ?case
    by (auto simp: attention_loop_Cons bnd_eq_Inr ret_eq_Inr simp del: attention_loop.simps)
qed

text \<open>Two tensors that agree on their first \<open>i\<close> positions agree on every shorter prefix.\<close>

lemma slice_to_mono:
  assumes "slice_to i ks = slice_to i ks'" and "m \<le> i"
  shows "slice_to m ks = slice_to m ks'"
proof (cases "shape ks")
  case Nil
  with assms show ?thesis by (auto simp: slice_to_def split: list.splits)
next
  case (Cons n s)
  with assms(1) obtain n' s' where s': "shape ks' = n' # s'"
    by (auto simp: slice_to_def split: list.splits)
  from assms(1) Cons s' have eq: "min i n = min i n'" "s = s'"
    and el: "take (min i n * prod_list s) (elems ks) = take (min i n' * prod_list s') (elems ks')"
    by (auto simp: slice_to_def)
  from eq(1) \<open>m \<le> i\<close> have mm: "min m n = min m n'" by (auto simp: min_def split: if_splits)
  have le: "min m n * prod_list s \<le> min i n * prod_list s"
    using \<open>m \<le> i\<close> by (intro mult_le_mono1) (auto simp: min_def)
  have "take (min m n * prod_list s) (elems ks)
      = take (min m n * prod_list s) (take (min i n * prod_list s) (elems ks))"
    using le by (simp add: min_absorb1)
  also have "\<dots> = take (min m n * prod_list s) (take (min i n * prod_list s) (elems ks'))"
    using el eq by simp
  also have "\<dots> = take (min m n * prod_list s) (elems ks')"
    using le by (simp add: min_absorb1)
  finally show ?thesis using Cons s' mm eq by (simp add: slice_to_def)
qed

lemma causal_loop_position:
  assumes "attention_loop self True q ks vs idx steps [] r = Inr (outs, r')"
    and "j < length steps"
  shows "\<exists>k v rj rj'. slice_to (idx + j) ks = Inr k \<and> slice_to (idx + j) vs = Inr v
           \<and> a_attention self (steps ! j) k v rj = Inr (outs ! j, rj')"
  using assms
proof (induction steps arbitrary: idx r outs j)
  case Nil
  then show ?case by simp
next
  case (Cons s rest)
  from Cons.prems(1) obtain k v out r1 ys where
    k: "slice_to idx ks = Inr k" and v: "slice_to idx vs = Inr v"
    and call: "a_attention self s k v r = Inr (out, r1)"
    and rest: "attention_loop self True q ks vs (Suc idx) rest [] r1 = Inr (ys, r')"
    and outs: "outs = out # ys"
    by (auto simp: attention_loop_Cons bnd_eq_Inr ret_eq_Inr lift_eq_Inr
        simp del: attention_loop.simps)
  show ?case
  proof (cases j)
    case 0
    with k v call outs show ?thesis by auto
  next
    case (Suc j')
    with Cons.prems(2) have "j' < length rest" by simp
    from Cons.IH[OF rest this] Suc outs show ?thesis by simp
  qed
qed

lemma causal_loop_prefix:
  assumes "attention_loop self True q ks vs idx steps [] r = Inr (outs, r1)"
    and "attention_loop self True q ks' vs' idx steps [] r = Inr (outs', r2)"
    and "slice_to (idx + j) ks = slice_to (idx + j) ks'"
    and "slice_to (idx + j) vs = slice_to (idx + j) vs'"
    and "j < length steps"
  shows "outs ! j = outs' ! j"
  using assms
proof (induction steps arbitrary: idx r outs outs' j)
  case Nil
  then show ?case by simp
next
  case (Cons s rest)
  have ks: "slice_to idx ks = slice_to idx ks'" and vs: "slice_to idx vs = slice_to idx vs'"
    using slice_to_mono[OF Cons.prems(3)] slice_to_mono[OF Cons.prems(4)] by simp_all
  from Cons.prems(1) obtain k v out ra ys where
    k: "slice_to idx ks = Inr k" and v: "slice_to idx vs = Inr v"
    and call: "a_attention self s k v r = Inr (out, ra)"
    and rest: "attention_loop self True q ks vs (Suc idx) rest [] ra = Inr (ys, r1)"
    and outs: "outs = out # ys"
    by (auto simp: attention_loop_Cons bnd_eq_Inr ret_eq_Inr lift_eq_Inr
        simp del: attention_loop.simps)
  from Cons.prems(2) k v ks vs call obtain ys' where
    rest': "attention_loop self True q ks' vs' (Suc idx) rest [] ra = Inr (ys', r2)"
    and outs': "outs' = out # ys'"
    by (auto simp: attention_loop_Cons bnd_eq_Inr ret_eq_Inr lift_eq_Inr
        simp del: attention_loop.simps)
  show ?case
  proof (cases j)
    case 0
    with outs outs' show ?thesis by simp
  next
    case (Suc j')
    with Cons.prems have "j' < length rest"
      and "slice_to (Suc idx + j') ks = slice_to (Suc idx + j') ks'"
      and "slice_to (Suc idx + j') vs = slice_to (Suc idx + j') vs'"
      by simp_all
    from Cons.IH[OF rest rest' this(2,3,1)] Suc outs outs' show ?thesis by simp
  qed
qed

text \<open>Iterating a stacked tensor gives back the tensors that were stacked.\<close>

lemma concat_chunk:
  assumes "\<forall>t \<in> set ts. length (f t) = n" and "j < length ts"
  shows "take n (drop (j * n) (concat (map f ts))) = f (ts ! j)"
  using assms
proof (induction ts arbitrary: j)
  case Nil
  then show ?case by simp
next
  case (Cons t ts)
  show ?case
  proof (cases j)
    case 0
    with Cons.prems show ?thesis by simp
  next
    case (Suc j')
    with Cons.prems have "take n (drop (j' * n) (concat (map f ts))) = f (ts ! j')"
      by (intro Cons.IH) auto
    with Suc Cons.prems show ?thesis by simp
  qed
qed

lemma unbind_stack:
  assumes "stack ts = Inr T" and "\<forall>t \<in> set ts. wf_tensor t"
  shows "unbind T = Inr ts"
proof -
  from assms(1) obtain t rest where ts: "ts = t # rest"
    and same: "\<forall>u \<in> set rest. shape u = shape t"
    and T: "T = \<lparr>shape = length ts # shape t, elems = concat (map elems ts)\<rparr>"
    by (auto simp: stack_def split: list.splits if_splits)
  have sh: "\<forall>u \<in> set ts. shape u = shape t" using ts same by simp
  with assms(2) have len: "\<forall>u \<in> set ts. length (elems u) = prod_list (shape t)"
    by (simp add: wf_tensor_def)
  have "map (\<lambda>i. \<lparr>shape = shape t,
           elems = take (prod_list (shape t))
             (drop (i * prod_list (shape t)) (concat (map elems ts)))\<rparr>)
          [0..<length ts] = ts"
    using sh concat_chunk[OF len] by (intro nth_equalityI) auto
  with T show ?thesis by (simp add: unbind_def)
qed

section \<open>Attention: which keys and values a position sees\<close>

text \<open>
  Without masking every position is computed from the keys and values cut to
  the length \<open>sl\<close> of the query sequence: the result depends on the keys and
  values through their first \<open>sl\<close> positions only.  When the keys are no longer
  than the queries, as in self-attention, that cut is the whole sequence.
\<close>

lemma noncausal_loop_prefix:
  assumes "shape q = sl # qs"
    and "slice_to sl ks = slice_to sl ks'" and "slice_to sl vs = slice_to sl vs'"
  shows "attention_loop self False q ks vs idx steps outs
       = attention_loop self False q ks' vs' idx steps outs"
proof (induction steps arbitrary: idx outs)
  case Nil
  show ?case by simp
next
  case (Cons s rest)
  have "lift (size0 q) = (ret sl :: ('a, nat) comp)"
    using assms(1) by (rule_tac ext) (simp add: size0_def lift_def ret_def)
  then show ?case using assms(2,3) Cons.IH by (simp add: bnd_ret_left)
qed

lemma noncausal_attention_prefix:
  assumes "shape q = sl # qs"
    and "slice_to sl ks = slice_to sl ks'" and "slice_to sl vs = slice_to sl vs'"
  shows "AttentionLayer_forward self q ks vs False = AttentionLayer_forward self q ks' vs' False"
  by (simp add: AttentionLayer_forward_def self_attention_outputs_def
      noncausal_loop_prefix[OF assms])

lemma noncausal_loop_position:
  assumes "attention_loop self False q ks vs idx steps [] r = Inr (outs, r')"
    and "shape q = sl # qs" and "j < length steps"
  shows "\<exists>k v rj rj'. slice_to sl ks = Inr k \<and> slice_to sl vs = Inr v
           \<and> a_attention self (steps ! j) k v rj = Inr (outs ! j, rj')"
  using assms(1,3)
proof (induction steps arbitrary: idx r outs j)
  case Nil
  then show ?case by simp
next
  case (Cons s rest)
  have sz: "size0 q = Inr sl" using assms(2) by (simp add: size0_def)
  from Cons.prems(1) obtain k v out r1 ys where
    k: "slice_to sl ks = Inr k" and v: "slice_to sl vs = Inr v"
    and call: "a_attention self s k v r = Inr (out, r1)"
    and rest: "attention_loop self False q ks vs (Suc idx) rest [] r1 = Inr (ys, r')"
    and outs: "outs = out # ys"
    by (auto simp: attention_loop_Cons bnd_eq_Inr ret_eq_Inr lift_eq_Inr sz
        simp del: attention_loop.simps)
  show ?case
  proof (cases j)
    case 0
    with k v call outs show ?thesis by auto
  next
    case (Suc j')
    with Cons.prems(2) have "j' < length rest" by simp
    from Cons.IH[OF rest this] Suc outs show ?thesis by simp
  qed
qed

lemma slice_to_whole:
  assumes "shape t = n # s" and "n \<le> k" and "wf_tensor t"
  shows "slice_to k t = Inr t"
proof -
  have "min k n = n" using assms(2) by simp
  moreover have "take (n * prod_list s) (elems t) = elems t"
    using assms(1,3) by (simp add: wf_tensor_def)
  ultimately have "slice_to k t = Inr \<lparr>shape = shape t, elems = elems t\<rparr>"
    using assms(1) by (simp add: slice_to_def)
  then show ?thesis by simp
qed

text \<open>
  C1.  A call without masking is meant to let every query position attend over
  the whole key/value sequence.  The loop slices keys and values to the length
  of the \<^emph>\<open>query\<close> sequence instead: with one query position and two key/value
  positions the kernel is called once, on the first key and the first value
  only, and changing the second key/value vector (4 into 5) changes nothing of
  what the kernel receives.
\<close>

theorem noncausal_attention_truncates:
  "AttentionLayer_forward recording_attention q1 k2 k2 False []
     = Inr (q1, [(\<lparr>shape = [1, 1], elems = [1]\<rparr>,
                  \<lparr>shape = [1, 1, 1], elems = [3]\<rparr>,
                  \<lparr>shape = [1, 1, 1], elems = [3]\<rparr>)])
   \<and> AttentionLayer_forward recording_attention q1 k2' k2' False []
     = AttentionLayer_forward recording_attention q1 k2 k2 False []"
  by code_simp

text \<open>
  C2.  In a causal call, position \<open>i\<close> (counted from 1) of the output is the
  kernel's result on the \<open>i\<close>-th query step and the first \<open>i\<close> keys and values.
  Hence two runs from the same generator state whose keys and values agree on
  the first \<open>i\<close> positions produce the same output at position \<open>i\<close>, whatever
  the later positions hold.  (The kernel returns tensors with as many elements
  as their size says.)
\<close>

theorem causal_attention_prefix:
  assumes "AttentionLayer_forward self q ks vs True r = Inr (out, r1)"
    and "AttentionLayer_forward self q ks' vs' True r = Inr (out', r2)"
    and "\<forall>x k v s y s'. a_attention self x k v s = Inr (y, s') \<longrightarrow> wf_tensor y"
    and "slice_to i ks = slice_to i ks'" and "slice_to i vs = slice_to i vs'"
    and "unbind q = Inr steps" and "1 \<le> i" and "i \<le> length steps"
  shows "\<exists>pos pos'. unbind out = Inr pos \<and> unbind out' = Inr pos' \<and> length pos = length steps
           \<and> (\<exists>k v ri ri'. slice_to i ks = Inr k \<and> slice_to i vs = Inr v
                 \<and> a_attention self (steps ! (i - 1)) k v ri = Inr (pos ! (i - 1), ri'))
           \<and> pos ! (i - 1) = pos' ! (i - 1)"
proof -
  from assms(1,6) obtain outs ra where
    loop: "attention_loop self True q ks vs 1 steps [] r = Inr (outs, ra)"
    and st: "stack outs = Inr out"
    by (auto simp: AttentionLayer_forward_def self_attention_outputs_def bnd_eq_Inr lift_eq_Inr)
  from assms(2,6) obtain outs' rb where
    loop': "attention_loop self True q ks' vs' 1 steps [] r = Inr (outs', rb)"
    and st': "stack outs' = Inr out'"
    by (auto simp: AttentionLayer_forward_def self_attention_outputs_def bnd_eq_Inr lift_eq_Inr)
  have j: "i - 1 < length steps" and i: "1 + (i - 1) = i" using assms(7,8) by simp_all
  have len: "length outs = length steps" by (rule attention_loop_length[OF loop])
  have len': "length outs' = length steps" by (rule attention_loop_length[OF loop'])
  have "\<forall>t \<in> set outs. wf_tensor t"
  proof
    fix t assume "t \<in> set outs"
    then obtain m where m: "m < length steps" and t: "t = outs ! m"
      using len by (auto simp: in_set_conv_nth)
    from causal_loop_position[OF loop m] t assms(3) show "wf_tensor t" by blast
  qed
  then have ub: "unbind out = Inr outs" by (rule unbind_stack[OF st])
  have "\<forall>t \<in> set outs'. wf_tensor t"
  proof
    fix t assume "t \<in> set outs'"
    then obtain m where m: "m < length steps" and t: "t = outs' ! m"
      using len' by (auto simp: in_set_conv_nth)
    from causal_loop_position[OF loop' m] t assms(3) show "wf_tensor t" by blast
  qed
  then have ub': "unbind out' = Inr outs'" by (rule unbind_stack[OF st'])
  have call: "\<exists>k v ri ri'. slice_to i ks = Inr k \<and> slice_to i vs = Inr v
      \<and> a_attention self (steps ! (i - 1)) k v ri = Inr (outs ! (i - 1), ri')"
    using causal_loop_position[OF loop j] i by simp
  have same: "outs ! (i - 1) = outs' ! (i - 1)"
    using causal_loop_prefix[OF loop loop' _ _ j] assms(4,5) i by simp
  from ub ub' len call same show ?thesis by blast
qed

theorem causal_attention_prefix_witness:
  "AttentionLayer_forward probe_attention q2 k2 k2 True (0::nat)
     = Inr (\<lparr>shape = [2, 1, 1], elems = [6, 14]\<rparr>, 0)
   \<and> AttentionLayer_forward probe_attention q2 k2' k2' True (0::nat)
     = Inr (\<lparr>shape = [2, 1, 1], elems = [6, 16]\<rparr>, 0)
   \<and> slice_to 1 k2 = slice_to 1 k2'
   \<and> unbind q2 = Inr [\<lparr>shape = [1, 1], elems = [1]\<rparr>, \<lparr>shape = [1, 1], elems = [2]\<rparr>]
   \<and> (\<exists>pos pos'. unbind \<lparr>shape = [2, 1, 1], elems = [6, 14]\<rparr> = Inr pos
         \<and> unbind \<lparr>shape = [2, 1, 1], elems = [6, 16]\<rparr> = Inr pos'
         \<and> length pos = 2 \<and> pos ! 0 = pos' ! 0)"
proof -
  have h1: "AttentionLayer_forward probe_attention q2 k2 k2 True (0::nat)
     = Inr (\<lparr>shape = [2, 1, 1], elems = [6, 14]\<rparr>, 0)"
    by code_simp
  have h2: "AttentionLayer_forward probe_attention q2 k2' k2' True (0::nat)
     = Inr (\<lparr>shape = [2, 1, 1], elems = [6, 16]\<rparr>, 0)"
    by code_simp
  have h3: "\<forall>x k v s y s'. a_attention probe_attention x k v s = Inr (y, s') \<longrightarrow> wf_tensor y"
    by (auto simp: probe_attention_def probe_kernel_def ret_def wf_tensor_def)
  have h4: "slice_to 1 k2 = slice_to 1 k2'"
    by code_simp
  have h5: "unbind q2 = Inr [\<lparr>shape = [1, 1], elems = [1]\<rparr>, \<lparr>shape = [1, 1], elems = [2]\<rparr>]"
    by code_simp
  from causal_attention_prefix[OF h1 h2 h3 h4 h4 h5] h1 h2 h4 h5 show ?thesis
    by auto
qed

section \<open>The residual sublayer\<close>

lemma map2_add_zeros: "map2 (+) xs (replicate (length xs) (0::real)) = xs"
  by (induction xs) auto

text \<open>
  C5.  Given an input \<open>x\<close> and a transformation \<open>t\<close> that preserves the size, the
  residual sublayer returns \<open>x + t (normalize x)\<close>, element by element: the
  normalisation is applied to the input, the transformation to the normalised
  input.  When the transformation returns zeros, the result is \<open>x\<close> unchanged.
\<close>

theorem SubLayer_residual:
  assumes "layer_norm self x r = Inr (n, r1)"
    and "t n r1 = Inr (y, r2)"
    and "shape y = shape x"
  shows "SubLayer_forward self x t r
           = Inr (\<lparr>shape = shape x, elems = map2 (+) (elems x) (elems y)\<rparr>, r2)
         \<and> (elems y = replicate (length (elems x)) 0
              \<longrightarrow> SubLayer_forward self x t r = Inr (x, r2))"
  using assms
  by (simp add: SubLayer_forward_def bnd_Inr lift_def tensor_add_def map2_add_zeros)

theorem SubLayer_residual_witness:
  "SubLayer_forward \<lparr>s_in_features = [1], layer_norm = (\<lambda>t. ret (t\<lparr>elems := map (\<lambda>v. 2 * v) (elems t)\<rparr>))\<rparr>
      q2 (\<lambda>t. ret (t\<lparr>elems := map (\<lambda>v. v + 1) (elems t)\<rparr>)) (0::nat)
     = Inr (\<lparr>shape = [2, 1, 1], elems = [4, 7]\<rparr>, 0)
   \<and> SubLayer_forward \<lparr>s_in_features = [1], layer_norm = ret\<rparr>
      q2 (\<lambda>t. ret (t\<lparr>elems := [0, 0]\<rparr>)) (0::nat)
     = Inr (q2, 0)"
  using SubLayer_residual[of "\<lparr>s_in_features = [1],
        layer_norm = (\<lambda>t. ret (t\<lparr>elems := map (\<lambda>v. 2 * v) (elems t)\<rparr>))\<rparr>" q2 "0::nat"
      "\<lparr>shape = [2, 1, 1], elems = [2, 4]\<rparr>" 0
      "\<lambda>t. ret (t\<lparr>elems := map (\<lambda>v. v + 1) (elems t)\<rparr>)"
      "\<lparr>shape = [2, 1, 1], elems = [3, 5]\<rparr>" 0]
    SubLayer_residual[of "\<lparr>s_in_features = [1], layer_norm = ret\<rparr>" q2 "0::nat" q2 0
      "\<lambda>t. ret (t\<lparr>elems := [0, 0]\<rparr>)" "\<lparr>shape = [2, 1, 1], elems = [0, 0]\<rparr>" 0]
  by (simp add: q2_def ret_def)

section \<open>The decoder layer's second attention module\<close>

text \<open>
  C10.  The decoder layer's constructor builds a second attention module,
  \<open>decoder_attention\<close>, but the forward pass calls \<open>attention\<close> both for the
  causal self-attention and for the cross-attention.  The result (output, error
  and generator state) is the same whatever \<open>decoder_attention\<close> holds.
\<close>

theorem decoder_attention_unused:
  "TransformerLayerDecoder_forward e (self\<lparr>decoder_attention := a'\<rparr>) encoder_input decoder_input
     = TransformerLayerDecoder_forward e self encoder_input decoder_input"
  by (simp add: TransformerLayerDecoder_forward_def)

section \<open>Sizes\<close>

text \<open>Whatever a layer returns has the size of its input: the last step is \<open>view(shape)\<close>.\<close>

lemma view_shape: "view s t = Inr y \<Longrightarrow> shape y = s"
  by (auto simp: view_def split: if_splits)

lemma TransformerLayer_forward_shape:
  "TransformerLayer_forward e self x r = Inr (y, r') \<Longrightarrow> shape y = shape x"
  by (auto simp: TransformerLayer_forward_def bnd_eq_Inr lift_eq_Inr dest: view_shape)

lemma TransformerLayerDecoder_forward_shape:
  "TransformerLayerDecoder_forward e self enc x r = Inr (y, r') \<Longrightarrow> shape y = shape x"
  by (auto simp: TransformerLayerDecoder_forward_def bnd_eq_Inr lift_eq_Inr dest: view_shape)

lemma small_layer_init: "TransformerLayer_init tiny_env 2 2 3 0 0 = Inr (small_layer, 0)"
  by (simp add: TransformerLayer_init_def AttentionLayer_init_def PositionFeedForward_init_def
      SubLayer_init_def Linear_init_def Dropout_init_def floordiv_def tiny_env_def small_layer_def
      bnd_def lift_def ret_def eval_nat_numeral)

text \<open>An empty sequence leaves \<open>torch.stack\<close> without tensors to stack.\<close>

lemma empty_sequence_raises:
  "TransformerLayer_forward tiny_env small_layer \<lparr>shape = [0, 2, 2], elems = []\<rparr> 0
     = Inl RuntimeError"
  by code_simp

text \<open>
  C7.  For every configuration and every input, whatever the encoder layer
  returns has the size of its input: the self-attention sublayer is followed by
  the feed-forward sublayer on the tensor flattened to rows of \<open>dim\<close> features,
  and the result is viewed back in the input's size.
\<close>

theorem encoder_layer_preserves_shape:
  "\<forall>y r'. TransformerLayer_forward e self x r = Inr (y, r') \<longrightarrow> shape y = shape x"
  using TransformerLayer_forward_shape[of e self x r] by blast

theorem encoder_layer_preserves_shape_witness:
  "TransformerLayer_init tiny_env 2 2 3 0 0 = Inr (small_layer, 0)
   \<and> TransformerLayer_forward tiny_env small_layer x322 0
     = Inr (\<lparr>shape = [3, 2, 2],
             elems = [1102, 1103, 1116, 1117, 1130, 1131, 1144, 1145, 1158, 1159, 1172, 1173]\<rparr>, 0)
   \<and> shape \<lparr>shape = [3, 2, 2],
             elems = [1102, 1103, 1116, 1117, 1130, 1131, 1144, 1145, 1158, 1159, 1172, 1173]\<rparr>
     = shape x322"
proof -
  have run: "TransformerLayer_forward tiny_env small_layer x322 0
     = Inr (\<lparr>shape = [3, 2, 2],
             elems = [1102, 1103, 1116, 1117, 1130, 1131, 1144, 1145, 1158, 1159, 1172, 1173]\<rparr>, 0)"
    by code_simp
  from encoder_layer_preserves_shape[of tiny_env small_layer x322 0, rule_format, OF run]
    small_layer_init run
  show ?thesis by simp
qed

section \<open>The stacks\<close>

lemma encoder_loop_acc:
  "encoder_loop e ls x (acc @ acc')
     = bnd (encoder_loop e ls x acc') (\<lambda>(final, outs). ret (final, acc @ outs))"
proof (induction ls arbitrary: x acc acc')
  case Nil
  show ?case by (simp add: bnd_ret_left)
next
  case (Cons l ls)
  have "encoder_loop e ls y (acc @ acc' @ [y])
     = bnd (encoder_loop e ls y (acc' @ [y])) (\<lambda>(final, outs). ret (final, acc @ outs))" for y
    using Cons.IH[of y acc "acc' @ [y]"] by simp
  then show ?case by (simp add: bnd_assoc)
qed

lemma encoder_loop_sequence:
  "encoder_loop e ls x []
     = bnd (layers_in_sequence e ls x) (\<lambda>outs. ret (last (x # outs), outs))"
proof (induction ls arbitrary: x)
  case Nil
  show ?case by (simp add: bnd_ret_left)
next
  case (Cons l ls)
  have "encoder_loop e ls y [y]
     = bnd (layers_in_sequence e ls y) (\<lambda>outs. ret (last (y # outs), y # outs))" for y
    using encoder_loop_acc[of e ls y "[y]" "[]"] Cons.IH[of y]
    by (simp add: bnd_assoc bnd_ret_left)
  then show ?case by (simp add: bnd_assoc bnd_ret_left)
qed

lemma layers_in_sequence_feeds:
  assumes "layers_in_sequence e ls x r = Inr (outs, r')"
  shows "length outs = length ls
     \<and> (\<forall>i < length ls. \<exists>ri ri'.
           TransformerLayer_forward e (ls ! i) ((x # outs) ! i) ri = Inr (outs ! i, ri'))"
  using assms
proof (induction ls arbitrary: x r outs)
  case Nil
  then show ?case by (simp add: ret_eq_Inr)
next
  case (Cons l ls)
  from Cons.prems obtain y r1 ys where
    y: "TransformerLayer_forward e l x r = Inr (y, r1)"
    and ys: "layers_in_sequence e ls y r1 = Inr (ys, r')"
    and outs: "outs = y # ys"
    by (auto simp: bnd_eq_Inr ret_eq_Inr)
  from Cons.IH[OF ys] have len: "length ys = length ls"
    and feeds: "\<forall>i < length ls. \<exists>ri ri'.
           TransformerLayer_forward e (ls ! i) ((y # ys) ! i) ri = Inr (ys ! i, ri')"
    by simp_all
  have "\<exists>ri ri'. TransformerLayer_forward e ((l # ls) ! i) ((x # outs) ! i) ri
          = Inr (outs ! i, ri')" if "i < length (l # ls)" for i
  proof (cases i)
    case 0
    with y outs show ?thesis by auto
  next
    case (Suc i')
    with that feeds outs show ?thesis by simp
  qed
  with len outs show ?case by simp
qed

lemma decoder_loop_acc:
  "decoder_loop e ps x (acc @ acc')
     = bnd (decoder_loop e ps x acc') (\<lambda>(final, outs). ret (final, acc @ outs))"
proof (induction ps arbitrary: x acc acc')
  case Nil
  show ?case by (simp add: bnd_ret_left)
next
  case (Cons pr ps)
  obtain enc l where pr: "pr = (enc, l)" by (cases pr)
  have "decoder_loop e ps y (acc @ acc' @ [y])
     = bnd (decoder_loop e ps y (acc' @ [y])) (\<lambda>(final, outs). ret (final, acc @ outs))" for y
    using Cons.IH[of y acc "acc' @ [y]"] by simp
  then show ?case by (simp add: pr bnd_assoc)
qed

lemma decoder_loop_pairwise:
  "decoder_loop e (zip encs ls) x []
     = bnd (layers_pairwise e ls encs x) (\<lambda>outs. ret (last (x # outs), outs))"
proof (induction e ls encs x rule: layers_pairwise.induct)
  case (1 e encs x)
  show ?case by (simp add: bnd_ret_left)
next
  case (2 e l ls x)
  show ?case by (simp add: bnd_ret_left)
next
  case (3 e l ls enc encs x)
  have "decoder_loop e (zip encs ls) y [y]
     = bnd (layers_pairwise e ls encs y) (\<lambda>outs. ret (last (y # outs), y # outs))" for y
    using decoder_loop_acc[of e "zip encs ls" y "[y]" "[]"] "3.IH"[of y]
    by (simp add: bnd_assoc bnd_ret_left)
  then show ?case by (simp add: bnd_assoc bnd_ret_left)
qed

lemma layers_pairwise_feeds:
  assumes "layers_pairwise e ls encs x r = Inr (outs, r')"
  shows "length outs = min (length ls) (length encs)
     \<and> (\<forall>t \<in> set outs. shape t = shape x)
     \<and> (\<forall>i < length outs. \<exists>ri ri'.
           TransformerLayerDecoder_forward e (ls ! i) (encs ! i) ((x # outs) ! i) ri
             = Inr (outs ! i, ri'))"
  using assms
proof (induction e ls encs x arbitrary: r outs rule: layers_pairwise.induct)
  case (1 e encs x)
  then show ?case by (simp add: ret_eq_Inr)
next
  case (2 e l ls x)
  then show ?case by (simp add: ret_eq_Inr)
next
  case (3 e l ls enc encs x)
  from "3.prems" obtain y r1 ys where
    y: "TransformerLayerDecoder_forward e l enc x r = Inr (y, r1)"
    and ys: "layers_pairwise e ls encs y r1 = Inr (ys, r')"
    and outs: "outs = y # ys"
    by (auto simp: bnd_eq_Inr ret_eq_Inr)
  have shy: "shape y = shape x" by (rule TransformerLayerDecoder_forward_shape[OF y])
  from "3.IH"[OF ys] have len: "length ys = min (length ls) (length encs)"
    and shapes: "\<forall>t \<in> set ys. shape t = shape y"
    and feeds: "\<forall>i < length ys. \<exists>ri ri'.
           TransformerLayerDecoder_forward e (ls ! i) (encs ! i) ((y # ys) ! i) ri
             = Inr (ys ! i, ri')"
    by simp_all
  have "\<exists>ri ri'. TransformerLayerDecoder_forward e ((l # ls) ! i) ((enc # encs) ! i)
          ((x # outs) ! i) ri = Inr (outs ! i, ri')" if "i < length outs" for i
  proof (cases i)
    case 0
    with y outs show ?thesis by auto
  next
    case (Suc i')
    with that feeds outs show ?thesis by simp
  qed
  with len shapes shy outs show ?case by simp
qed

text \<open>
  C6.  The encoder's forward pass is the application of its layers in order,
  each layer's output feeding the next one, returning the last output with the
  list of all per-layer outputs: it fails exactly when a layer fails, and the
  generator state is threaded through the layers in the same order.  A run
  that returns gives one output per layer; output \<open>i\<close> is layer \<open>i\<close> applied to
  output \<open>i - 1\<close> (the input for the first layer), and the final output is the
  last element of the list when there is at least one layer.
\<close>

theorem encoder_forward_sequence:
  "TransformerEncoder_forward e self x
     = bnd (layers_in_sequence e (enc_layers self) x) (\<lambda>outs. ret (last (x # outs), outs))
   \<and> (\<forall>r final outs r'. TransformerEncoder_forward e self x r = Inr ((final, outs), r')
        \<longrightarrow> length outs = length (enc_layers self)
          \<and> final = last (x # outs)
          \<and> (enc_layers self \<noteq> [] \<longrightarrow> final = last outs)
          \<and> (\<forall>i < length (enc_layers self). \<exists>ri ri'.
                TransformerLayer_forward e (enc_layers self ! i) ((x # outs) ! i) ri
                  = Inr (outs ! i, ri')))"
proof -
  have eq: "TransformerEncoder_forward e self x
     = bnd (layers_in_sequence e (enc_layers self) x) (\<lambda>outs. ret (last (x # outs), outs))"
    by (simp add: TransformerEncoder_forward_def encoder_loop_sequence)
  have "length outs = length (enc_layers self)
          \<and> final = last (x # outs)
          \<and> (enc_layers self \<noteq> [] \<longrightarrow> final = last outs)
          \<and> (\<forall>i < length (enc_layers self). \<exists>ri ri'.
                TransformerLayer_forward e (enc_layers self ! i) ((x # outs) ! i) ri
                  = Inr (outs ! i, ri'))"
    if "TransformerEncoder_forward e self x r = Inr ((final, outs), r')" for r final outs r'
  proof -
    from that eq have run: "layers_in_sequence e (enc_layers self) x r = Inr (outs, r')"
      and fin: "final = last (x # outs)"
      by (auto simp: bnd_eq_Inr ret_eq_Inr)
    from layers_in_sequence_feeds[OF run] fin show ?thesis by auto
  qed
  with eq show ?thesis by blast
qed

theorem encoder_forward_sequence_witness:
  "TransformerEncoder_forward tiny_env \<lparr>enc_layers = [tiny_layer 0 True, tiny_layer 0 True]\<rparr> q2 0
     = Inr ((\<lparr>shape = [2, 1, 1], elems = [148, 152]\<rparr>,
             [\<lparr>shape = [2, 1, 1], elems = [14, 16]\<rparr>, \<lparr>shape = [2, 1, 1], elems = [148, 152]\<rparr>]), 0)
   \<and> length [\<lparr>shape = [2, 1, 1], elems = [14, 16]\<rparr>, \<lparr>shape = [2, 1, 1], elems = [148, 152]\<rparr>]
       = length [tiny_layer 0 True, tiny_layer 0 True]
   \<and> \<lparr>shape = [2, 1, 1], elems = [148, 152]\<rparr>
       = last [\<lparr>shape = [2, 1, 1], elems = [14, 16]\<rparr>, \<lparr>shape = [2, 1, 1], elems = [148, 152]\<rparr>]"
proof -
  have run: "TransformerEncoder_forward tiny_env
      \<lparr>enc_layers = [tiny_layer 0 True, tiny_layer 0 True]\<rparr> q2 0
     = Inr ((\<lparr>shape = [2, 1, 1], elems = [148, 152]\<rparr>,
             [\<lparr>shape = [2, 1, 1], elems = [14, 16]\<rparr>, \<lparr>shape = [2, 1, 1], elems = [148, 152]\<rparr>]), 0)"
    by code_simp
  note th = encoder_forward_sequence[of tiny_env
      "\<lparr>enc_layers = [tiny_layer 0 True, tiny_layer 0 True]\<rparr>" q2,
      THEN conjunct2, rule_format, OF run]
  from th run show ?thesis by simp
qed

text \<open>
  C4.  The decoder's forward pass applies layer \<open>i\<close> to encoder output \<open>i\<close> and
  the running decoder state, pairwise and in order, and stops at the shorter of
  the two lists; it returns the last decoder state with the list of per-layer
  outputs.  A run that returns gives \<open>min N M\<close> outputs, hence \<open>N\<close> outputs when
  \<open>M = N\<close>, each of the size of the decoder input.
\<close>

theorem decoder_forward_pairwise:
  "TransformerDecoder_forward e self encs x
     = bnd (layers_pairwise e (dec_layers self) encs x) (\<lambda>outs. ret (last (x # outs), outs))
   \<and> (\<forall>r final outs r'. TransformerDecoder_forward e self encs x r = Inr ((final, outs), r')
        \<longrightarrow> length outs = min (length (dec_layers self)) (length encs)
          \<and> (length encs = length (dec_layers self) \<longrightarrow> length outs = length (dec_layers self))
          \<and> final = last (x # outs)
          \<and> (\<forall>t \<in> set outs. shape t = shape x)
          \<and> (\<forall>i < length outs. \<exists>ri ri'.
                TransformerLayerDecoder_forward e (dec_layers self ! i) (encs ! i)
                  ((x # outs) ! i) ri = Inr (outs ! i, ri')))"
proof -
  have eq: "TransformerDecoder_forward e self encs x
     = bnd (layers_pairwise e (dec_layers self) encs x) (\<lambda>outs. ret (last (x # outs), outs))"
    by (simp add: TransformerDecoder_forward_def decoder_loop_pairwise)
  have "length outs = min (length (dec_layers self)) (length encs)
          \<and> (length encs = length (dec_layers self) \<longrightarrow> length outs = length (dec_layers self))
          \<and> final = last (x # outs)
          \<and> (\<forall>t \<in> set outs. shape t = shape x)
          \<and> (\<forall>i < length outs. \<exists>ri ri'.
                TransformerLayerDecoder_forward e (dec_layers self ! i) (encs ! i)
                  ((x # outs) ! i) ri = Inr (outs ! i, ri'))"
    if "TransformerDecoder_forward e self encs x r = Inr ((final, outs), r')" for r final outs r'
  proof -
    from that eq have run: "layers_pairwise e (dec_layers self) encs x r = Inr (outs, r')"
      and fin: "final = last (x # outs)"
      by (auto simp: bnd_eq_Inr ret_eq_Inr)
    from layers_pairwise_feeds[OF run] fin show ?thesis by auto
  qed
  with eq show ?thesis by blast
qed

theorem decoder_forward_pairwise_witness:
  "TransformerDecoder_forward tiny_env
      \<lparr>dec_layers = [tiny_decoder_layer 0 True, tiny_decoder_layer 0 True]\<rparr> [k2, k2'] q2 0
     = Inr ((\<lparr>shape = [2, 1, 1], elems = [236, 432]\<rparr>,
             [\<lparr>shape = [2, 1, 1], elems = [34, 44]\<rparr>, \<lparr>shape = [2, 1, 1], elems = [236, 432]\<rparr>]), 0)
   \<and> length [\<lparr>shape = [2, 1, 1], elems = [34, 44]\<rparr>, \<lparr>shape = [2, 1, 1], elems = [236, 432]\<rparr>]
       = min (length [tiny_decoder_layer 0 True, tiny_decoder_layer 0 True]) (length [k2, k2'])
   \<and> shape \<lparr>shape = [2, 1, 1], elems = [34, 44]\<rparr> = shape q2
   \<and> shape \<lparr>shape = [2, 1, 1], elems = [236, 432]\<rparr> = shape q2"
proof -
  have run: "TransformerDecoder_forward tiny_env
      \<lparr>dec_layers = [tiny_decoder_layer 0 True, tiny_decoder_layer 0 True]\<rparr> [k2, k2'] q2 0
     = Inr ((\<lparr>shape = [2, 1, 1], elems = [236, 432]\<rparr>,
             [\<lparr>shape = [2, 1, 1], elems = [34, 44]\<rparr>, \<lparr>shape = [2, 1, 1], elems = [236, 432]\<rparr>]), 0)"
    by code_simp
  note th = decoder_forward_pairwise[of tiny_env
      "\<lparr>dec_layers = [tiny_decoder_layer 0 True, tiny_decoder_layer 0 True]\<rparr>" "[k2, k2']" q2,
      THEN conjunct2, rule_format, OF run]
  from th run show ?thesis by simp
qed

section \<open>Determinism without dropout\<close>

lemma rng_free_ret: "rng_free (ret x)"
  by (simp add: rng_free_def ret_def outcome_def)

lemma rng_free_lift: "rng_free (lift v)"
  by (simp add: rng_free_def lift_def outcome_def split: sum.splits)

lemma rng_free_bnd:
  assumes "rng_free m" and "\<And>x r r'. m r = Inr (x, r') \<Longrightarrow> rng_free (f x)"
  shows "rng_free (bnd m f)"
  unfolding rng_free_def
proof (intro allI)
  fix r r'
  from assms(1) have eq: "outcome (m r) = outcome (m r')" by (simp add: rng_free_def)
  show "outcome (bnd m f r) = outcome (bnd m f r')"
  proof (cases "m r")
    case (Inl err)
    with eq have "m r' = Inl err" by (auto simp: outcome_def split: sum.splits)
    with Inl show ?thesis by (simp add: bnd_def)
  next
    case (Inr xr)
    obtain x r1 where xr: "xr = (x, r1)" by (cases xr)
    with Inr eq obtain r1' where m': "m r' = Inr (x, r1')"
      by (auto simp: outcome_def split: sum.splits)
    from assms(2) Inr xr have "rng_free (f x)" by simp
    then have "outcome (f x r1) = outcome (f x r1')" by (simp add: rng_free_def)
    with Inr xr m' show ?thesis by (simp add: bnd_def)
  qed
qed

lemma rng_free_attention_loop:
  assumes "\<And>q k v. rng_free (a_attention self q k v)"
  shows "rng_free (attention_loop self m q ks vs idx steps outs)"
proof (induction steps arbitrary: idx outs)
  case Nil
  show ?case by (simp add: rng_free_ret)
next
  case (Cons s rest)
  have "rng_free (if m then ret idx else lift (size0 q))"
    by (simp add: rng_free_ret rng_free_lift)
  then show ?case
    unfolding attention_loop.simps
    by (intro rng_free_bnd rng_free_lift assms Cons.IH)
qed

lemma rng_free_AttentionLayer_forward:
  assumes "\<And>q k v. rng_free (a_attention self q k v)"
  shows "rng_free (AttentionLayer_forward self q ks vs m)"
  unfolding AttentionLayer_forward_def self_attention_outputs_def
  by (intro rng_free_bnd rng_free_lift rng_free_attention_loop assms)

lemma rng_free_SubLayer_forward:
  assumes "\<And>t. rng_free (layer_norm self t)" and "\<And>t. rng_free (f t)"
  shows "rng_free (SubLayer_forward self x f)"
  unfolding SubLayer_forward_def
  by (intro rng_free_bnd rng_free_lift assms)

lemma rng_free_Dropout_forward:
  assumes "p d = 0 \<or> \<not> training d"
  shows "rng_free (Dropout_forward e d t)"
  using assms by (auto simp: rng_free_def Dropout_forward_def outcome_def)

lemma rng_free_PositionFeedForward_forward:
  assumes "p (ff_dropout (ff self)) = 0 \<or> \<not> training (ff_dropout (ff self))"
  shows "rng_free (PositionFeedForward_forward e self x)"
  unfolding PositionFeedForward_forward_def
  by (intro rng_free_bnd rng_free_lift rng_free_Dropout_forward assms)

lemma module_at_in_set: "module_at ms i = Inr m \<Longrightarrow> m \<in> set ms"
  by (auto simp: module_at_def split: if_splits)

lemma rng_free_TransformerLayer_forward:
  assumes "dropout_disabled self"
  shows "rng_free (TransformerLayer_forward e self x)"
proof -
  from assms have k: "\<And>q k v. rng_free (a_attention (attention self) q k v)"
    and n: "\<And>s t. s \<in> set (sublayers self) \<Longrightarrow> rng_free (layer_norm s t)"
    and d: "p (ff_dropout (ff (linear self))) = 0 \<or> \<not> training (ff_dropout (ff (linear self)))"
    by (auto simp: dropout_disabled_def)
  show ?thesis
    unfolding TransformerLayer_forward_def
    by (intro rng_free_bnd rng_free_lift rng_free_SubLayer_forward
        rng_free_AttentionLayer_forward rng_free_PositionFeedForward_forward k d n)
      (auto simp: lift_eq_Inr dest: module_at_in_set)
qed

lemma rng_free_TransformerLayerDecoder_forward:
  assumes "dropout_disabled self"
  shows "rng_free (TransformerLayerDecoder_forward e self enc x)"
proof -
  from assms have k: "\<And>q k v. rng_free (a_attention (attention self) q k v)"
    and n: "\<And>s t. s \<in> set (sublayers self) \<Longrightarrow> rng_free (layer_norm s t)"
    and d: "p (ff_dropout (ff (linear self))) = 0 \<or> \<not> training (ff_dropout (ff (linear self)))"
    by (auto simp: dropout_disabled_def)
  show ?thesis
    unfolding TransformerLayerDecoder_forward_def
    by (intro rng_free_bnd rng_free_lift rng_free_SubLayer_forward
        rng_free_AttentionLayer_forward rng_free_PositionFeedForward_forward k d n)
      (auto simp: lift_eq_Inr dest: module_at_in_set)
qed

lemma rng_free_encoder_loop:
  assumes "\<forall>l \<in> set ls. dropout_disabled l"
  shows "rng_free (encoder_loop e ls x acc)"
  using assms
proof (induction ls arbitrary: x acc)
  case Nil
  show ?case by (simp add: rng_free_ret)
next
  case (Cons l ls)
  then show ?case
    by (auto intro!: rng_free_bnd rng_free_TransformerLayer_forward)
qed

lemma rng_free_decoder_loop:
  assumes "\<forall>(enc, l) \<in> set ps. dropout_disabled l"
  shows "rng_free (decoder_loop e ps x acc)"
  using assms
proof (induction ps arbitrary: x acc)
  case Nil
  show ?case by (simp add: rng_free_ret)
next
  case (Cons pr ps)
  obtain enc l where pr: "pr = (enc, l)" by (cases pr)
  with Cons show ?case
    by (auto intro!: rng_free_bnd rng_free_TransformerLayerDecoder_forward)
qed

text \<open>With dropout enabled the generator state does change the output.\<close>

lemma dropout_depends_on_generator:
  "TransformerLayer_forward tiny_env (tiny_layer (1 / 2) True) q2 0
     = Inr (\<lparr>shape = [2, 1, 1], elems = [21, 8]\<rparr>, 2)
   \<and> TransformerLayer_forward tiny_env (tiny_layer (1 / 2) True) q2 1
     = Inr (\<lparr>shape = [2, 1, 1], elems = [7, 24]\<rparr>, 3)"
  by code_simp

text \<open>
  C9.  When dropout is disabled in every layer (rate 0 or inference mode, the
  collaborators being free of the generator), the error or outputs of the
  encoder's and of the decoder's forward pass do not depend on the generator
  state: two runs on the same inputs with the same weights agree.
\<close>

theorem forward_deterministic_without_dropout:
  assumes "\<forall>l \<in> set (enc_layers enc). dropout_disabled l"
    and "\<forall>l \<in> set (dec_layers dec). dropout_disabled l"
  shows "outcome (TransformerEncoder_forward e enc x r)
           = outcome (TransformerEncoder_forward e enc x r')
       \<and> outcome (TransformerDecoder_forward e dec encs y r)
           = outcome (TransformerDecoder_forward e dec encs y r')"
proof -
  have "rng_free (TransformerEncoder_forward e enc x)"
    unfolding TransformerEncoder_forward_def by (rule rng_free_encoder_loop[OF assms(1)])
  moreover have "\<forall>(en, l) \<in> set (zip encs (dec_layers dec)). dropout_disabled l"
    using assms(2) by (auto dest: set_zip_rightD)
  then have "rng_free (TransformerDecoder_forward e dec encs y)"
    unfolding TransformerDecoder_forward_def by (rule rng_free_decoder_loop)
  ultimately show ?thesis by (simp add: rng_free_def)
qed

theorem forward_deterministic_without_dropout_witness:
  "dropout_disabled (tiny_layer 0 True) \<and> dropout_disabled (tiny_layer (1 / 2) False)
   \<and> dropout_disabled (tiny_decoder_layer 0 True)
   \<and> dropout_disabled (tiny_decoder_layer (1 / 2) False)
   \<and> outcome (TransformerEncoder_forward tiny_env
        \<lparr>enc_layers = [tiny_layer 0 True, tiny_layer (1 / 2) False]\<rparr> q2 0)
     = outcome (TransformerEncoder_forward tiny_env
        \<lparr>enc_layers = [tiny_layer 0 True, tiny_layer (1 / 2) False]\<rparr> q2 1)
   \<and> outcome (TransformerDecoder_forward tiny_env
        \<lparr>dec_layers = [tiny_decoder_layer 0 True, tiny_decoder_layer (1 / 2) False]\<rparr>
        [k2, k2'] q2 0)
     = outcome (TransformerDecoder_forward tiny_env
        \<lparr>dec_layers = [tiny_decoder_layer 0 True, tiny_decoder_layer (1 / 2) False]\<rparr>
        [k2, k2'] q2 1)"
proof -
  have free: "rng_free (probe_kernel q k v :: (nat, tensor) comp)" for q k v
    by (simp add: probe_kernel_def rng_free_ret)
  have d1: "dropout_disabled (tiny_layer rate mode)" if "rate = 0 \<or> \<not> mode" for rate mode
    using that free
    by (auto simp: dropout_disabled_def tiny_layer_def tiny_ff_def tiny_sublayer_def
        probe_attention_def rng_free_ret)
  have d2: "dropout_disabled (tiny_decoder_layer rate mode)" if "rate = 0 \<or> \<not> mode" for rate mode
    using that free
    by (auto simp: dropout_disabled_def tiny_decoder_layer_def tiny_ff_def tiny_sublayer_def
        probe_attention_def rng_free_ret)
  have e: "\<forall>l \<in> set (enc_layers \<lparr>enc_layers = [tiny_layer 0 True, tiny_layer (1 / 2) False]\<rparr>).
      dropout_disabled l"
    using d1 by simp
  have d: "\<forall>l \<in> set (dec_layers
      \<lparr>dec_layers = [tiny_decoder_layer 0 True, tiny_decoder_layer (1 / 2) False]\<rparr>).
      dropout_disabled l"
    using d2 by simp
  from forward_deterministic_without_dropout[OF e d, of tiny_env q2 0 1 "[k2, k2']" q2] d1 d2
  show ?thesis by simp
qed

section \<open>Construction\<close>

text \<open>
  The constructor of the attention block has no check of its own.  A head
  count of zero fails in the floor division; with any other head count the
  constructor hands the floor of \<open>dim / num_heads\<close> to the kernel's constructor
  and succeeds or fails as that one does.  Whether a head count that does not
  divide the dimension is refused at construction is therefore up to the
  kernel's constructor, which is a parameter here.
\<close>

lemma AttentionLayer_init_result:
  "(num_heads = 0 \<longrightarrow> AttentionLayer_init e d num_heads p' r = Inl ZeroDivisionError)
   \<and> (num_heads \<noteq> 0 \<longrightarrow> AttentionLayer_init e d num_heads p' r
        = (case MultiHeadAttention_init e num_heads (d div num_heads) d d d p' r of
             Inl err \<Rightarrow> Inl err
           | Inr (k, r') \<Rightarrow> Inr (\<lparr>a_dim = d, a_nhid = d div num_heads, a_attention = k\<rparr>, r')))"
  by (auto simp: AttentionLayer_init_def floordiv_def bnd_def lift_def ret_def split: sum.splits)

lemma get_list_explicit:
  "0 \<le> n \<Longrightarrow> get_list (explicit_list n h) n = get_list h n"
  by (cases h) (simp_all add: get_list_def)

text \<open>
  C8.  For a number of layers \<open>n \<ge> 0\<close>, a stack built from a hyperparameter
  given as a scalar is the stack built from the explicit list repeating that
  scalar \<open>n\<close> times: the two constructions are the same computation, for the
  head counts and for the feed-forward widths, in the encoder and in the
  decoder.  A list whose length is not \<open>n\<close> makes the constructor fail with a
  configuration error.
\<close>

theorem hyperparameter_broadcast:
  assumes "0 \<le> num_layers"
  shows "TransformerEncoder_init e num_layers d H W p'
           = TransformerEncoder_init e num_layers d
               (explicit_list num_layers H) (explicit_list num_layers W) p'
       \<and> TransformerDecoder_init e num_layers d H W p'
           = TransformerDecoder_init e num_layers d
               (explicit_list num_layers H) (explicit_list num_layers W) p'
       \<and> (\<forall>xs. int (length xs) \<noteq> num_layers \<longrightarrow>
             TransformerEncoder_init e num_layers d (Listy xs) W p' r = Inl ConfigError
           \<and> TransformerEncoder_init e num_layers d H (Listy xs) p' r = Inl ConfigError
           \<and> TransformerDecoder_init e num_layers d (Listy xs) W p' r = Inl ConfigError
           \<and> TransformerDecoder_init e num_layers d H (Listy xs) p' r = Inl ConfigError)"
proof -
  have bad: "get_list (Listy xs) num_layers = Inl ConfigError"
    if "int (length xs) \<noteq> num_layers" for xs :: "int list"
    using that by (simp add: get_list_def)
  have any: "(\<exists>ys. get_list H num_layers = Inr ys) \<or> get_list H num_layers = Inl ConfigError"
    for H :: "int hyper"
    by (cases H) (auto simp: get_list_def)
  have "TransformerEncoder_init e num_layers d (Listy xs) W p' r = Inl ConfigError
      \<and> TransformerEncoder_init e num_layers d H (Listy xs) p' r = Inl ConfigError
      \<and> TransformerDecoder_init e num_layers d (Listy xs) W p' r = Inl ConfigError
      \<and> TransformerDecoder_init e num_layers d H (Listy xs) p' r = Inl ConfigError"
    if "int (length xs) \<noteq> num_layers" for xs
    using bad[OF that] any[of W]
    by (auto simp: TransformerEncoder_init_def TransformerDecoder_init_def bnd_def lift_def)
  then show ?thesis
    using assms
    by (simp add: TransformerEncoder_init_def TransformerDecoder_init_def get_list_explicit)
qed

theorem hyperparameter_broadcast_witness:
  "(0::int) \<le> 3
   \<and> TransformerEncoder_init tiny_env 3 8 (Scalar 4) (Scalar 16) 0
       = TransformerEncoder_init tiny_env 3 8 (Listy [4, 4, 4]) (Listy [16, 16, 16]) 0
   \<and> TransformerDecoder_init tiny_env 3 8 (Scalar 4) (Scalar 16) 0
       = TransformerDecoder_init tiny_env 3 8 (Listy [4, 4, 4]) (Listy [16, 16, 16]) 0
   \<and> TransformerEncoder_init tiny_env 3 8 (Listy [4, 4]) (Scalar 16) 0 0 = Inl ConfigError
   \<and> TransformerDecoder_init tiny_env 3 8 (Scalar 4) (Listy [16, 16, 16, 16]) 0 0
       = Inl ConfigError"
proof -
  have h: "(0::int) \<le> 3" by simp
  have rep: "replicate 3 (x::int) = [x, x, x]" for x
    by (simp add: eval_nat_numeral)
  note th = hyperparameter_broadcast[OF h, of tiny_env 8 "Scalar 4" "Scalar 16" 0 0]
  from th have a: "TransformerEncoder_init tiny_env 3 8 (Scalar 4) (Scalar 16) 0
       = TransformerEncoder_init tiny_env 3 8 (Listy [4, 4, 4]) (Listy [16, 16, 16]) 0"
    and b: "TransformerDecoder_init tiny_env 3 8 (Scalar 4) (Scalar 16) 0
       = TransformerDecoder_init tiny_env 3 8 (Listy [4, 4, 4]) (Listy [16, 16, 16]) 0"
    by (simp_all add: rep)
  from th have c: "TransformerEncoder_init tiny_env 3 8 (Listy [4, 4]) (Scalar 16) 0 0
       = Inl ConfigError"
    by simp
  from th have d: "TransformerDecoder_init tiny_env 3 8 (Scalar 4) (Listy [16, 16, 16, 16]) 0 0
       = Inl ConfigError"
    by simp
  from h a b c d show ?thesis by simp
qed

end
